theory Spec2Isabelle
  imports Complex_Main
begin

section \<open>Python primitives used by the scripts\<close>

text \<open>
  Exceptions are values. A \<open>py_error\<close> is raised by the Python runtime or standard
  library inside the scripts themselves; \<open>Raised e\<close> is an exception thrown by an
  external collaborator (the database driver, the benchmarked query).
\<close>

datatype py_error = ZeroDivisionError | ValueError | StatisticsError

datatype 'e exn = PyError py_error | Raised 'e

text \<open>
  \<open>range(start, stop, step)\<close>: a zero step raises \<open>ValueError\<close>; otherwise the range
  holds \<open>start + k * step\<close> for the indices below its length, which Python computes as
  \<open>(stop - start + step - 1) // step\<close> for a positive step (and symmetrically for a
  negative one), or nothing when that is not positive.
\<close>

definition py_range :: "int \<Rightarrow> int \<Rightarrow> int \<Rightarrow> py_error + int list" where
  "py_range start stop step =
     (if step = 0 then Inl ValueError
      else if 0 < step
        then Inr (map (\<lambda>k. start + int k * step) [0 ..< nat ((stop - start + step - 1) div step)])
        else Inr (map (\<lambda>k. start + int k * step) [0 ..< nat ((start - stop - step - 1) div (- step))]))"

text \<open>
  \<open>xs[lo:hi]\<close>: a negative bound counts from the end, and both bounds are clamped to
  the list, so a slice never raises.
\<close>

definition clamp_index :: "int \<Rightarrow> int \<Rightarrow> int" where
  "clamp_index n i = (if i < 0 then max 0 (i + n) else min i n)"

definition py_slice :: "'a list \<Rightarrow> int \<Rightarrow> int \<Rightarrow> 'a list" where
  "py_slice xs lo hi =
     (let n = int (length xs); a = clamp_index n lo; b = clamp_index n hi
      in take (nat (b - a)) (drop (nat a) xs))"

section \<open>mongodb-script.py: \<open>MongoDBImporter.bulk_insert_documents\<close>\<close>

text \<open>
  \<open>InsertOne(doc)\<close> wraps a document into a write operation.
\<close>

datatype 'd write_op = InsertOne 'd

text \<open>
  What one call \<open>collection.bulk_write(batch, ordered=False)\<close> can do: return a result
  whose \<open>inserted_count\<close> is read, raise \<open>BulkWriteError\<close> whose \<open>details\<close> dictionary
  may or may not hold the key \<open>nInserted\<close>, or raise anything else.
\<close>

datatype 'e bulk_write_outcome =
    BulkWriteResult int
  | BulkWriteError "int option"
  | OtherException 'e

text \<open>
  The collection is external: a step function over the state of the backend.
\<close>

type_synonym ('s, 'd, 'e) collection =
  "'s \<Rightarrow> 'd write_op list \<Rightarrow> 'e bulk_write_outcome \<times> 's"

text \<open>
  The variables of the insertion loop (lines 138 to 151), with the state of the backend
  and the log of the calls made to \<open>bulk_write\<close>: each entry is the batch submitted and
  what the backend answered, oldest first.
\<close>

record ('s, 'd, 'e) load_state =
  backend :: 's
  calls :: "('d write_op list \<times> 'e bulk_write_outcome) list"
  total_inserted :: int
  failed_inserts :: int

text \<open>\<open>bwe.details.get('nInserted', 0)\<close>\<close>

definition nInserted :: "int option \<Rightarrow> int" where
  "nInserted details = (case details of None \<Rightarrow> 0 | Some k \<Rightarrow> k)"

text \<open>
  The body of the loop for one index \<open>i\<close> of the range (lines 143 to 151). Progress
  bar, logging and the periodic memory reading have no effect on the variables.
\<close>

definition insert_batch ::
  "('s, 'd, 'e) collection \<Rightarrow> 'd write_op list \<Rightarrow> int \<Rightarrow> int \<Rightarrow>
   ('s, 'd, 'e) load_state \<Rightarrow> 'e exn \<times> ('s, 'd, 'e) load_state + ('s, 'd, 'e) load_state" where
  "insert_batch bulk_write operations batch_size i st =
     (let batch = py_slice operations i (i + batch_size);
          (outcome, s') = bulk_write (backend st) batch;
          st' = st\<lparr>backend := s', calls := calls st @ [(batch, outcome)]\<rparr>
      in case outcome of
           BulkWriteResult inserted_count \<Rightarrow>
             Inr (st'\<lparr>total_inserted := total_inserted st + inserted_count\<rparr>)
         | BulkWriteError details \<Rightarrow>
             Inr (st'\<lparr>failed_inserts :=
                    failed_inserts st + (int (length batch) - nInserted details)\<rparr>)
         | OtherException e \<Rightarrow> Inl (Raised e, st'))"

text \<open>
  \<open>for i in range(0, len(operations), batch_size)\<close>, over the indices of the range: an
  exception that is not a \<open>BulkWriteError\<close> leaves the loop at once.
\<close>

fun insert_loop ::
  "('s, 'd, 'e) collection \<Rightarrow> 'd write_op list \<Rightarrow> int \<Rightarrow> int list \<Rightarrow>
   ('s, 'd, 'e) load_state \<Rightarrow> 'e exn \<times> ('s, 'd, 'e) load_state + ('s, 'd, 'e) load_state" where
  "insert_loop bulk_write operations batch_size [] st = Inr st"
| "insert_loop bulk_write operations batch_size (i # is) st =
     (case insert_batch bulk_write operations batch_size i st of
        Inl err \<Rightarrow> Inl err
      | Inr st' \<Rightarrow> insert_loop bulk_write operations batch_size is st')"

text \<open>
  The whole method, with the final state of its variables kept beside what Python
  returns or raises. \<open>None\<close> documents are filtered out first; the number of batches
  for the progress bar is a floor division by \<open>batch_size\<close>, which raises
  \<open>ZeroDivisionError\<close> before any write when \<open>batch_size\<close> is zero. The outer
  \<open>except Exception\<close> logs and re-raises.
\<close>

definition valid_documents :: "'d option list \<Rightarrow> 'd list" where
  "valid_documents documents = [doc. Some doc \<leftarrow> documents]"

definition initial_load_state :: "'s \<Rightarrow> ('s, 'd, 'e) load_state" where
  "initial_load_state s = \<lparr>backend = s, calls = [], total_inserted = 0, failed_inserts = 0\<rparr>"

definition bulk_insert_run ::
  "('s, 'd, 'e) collection \<Rightarrow> 's \<Rightarrow> 'd option list \<Rightarrow> int \<Rightarrow>
   'e exn \<times> ('s, 'd, 'e) load_state + ('s, 'd, 'e) load_state" where
  "bulk_insert_run bulk_write s documents batch_size =
     (let operations = map InsertOne (valid_documents documents);
          total_documents = int (length operations)
      in if batch_size = 0 then Inl (PyError ZeroDivisionError, initial_load_state s)
         else case py_range 0 total_documents batch_size of
                Inl err \<Rightarrow> Inl (PyError err, initial_load_state s)
              | Inr indices \<Rightarrow>
                  insert_loop bulk_write operations batch_size indices (initial_load_state s))"

definition bulk_insert_documents ::
  "('s, 'd, 'e) collection \<Rightarrow> 's \<Rightarrow> 'd option list \<Rightarrow> int \<Rightarrow> 'e exn + int \<times> int" where
  "bulk_insert_documents bulk_write s documents batch_size =
     (case bulk_insert_run bulk_write s documents batch_size of
        Inl (err, st) \<Rightarrow> Inl err
      | Inr st \<Rightarrow> Inr (total_inserted st, failed_inserts st))"

text \<open>
  The batches the loop goes through, in order: the slices at the indices of the range.
\<close>

definition batches :: "'a list \<Rightarrow> int \<Rightarrow> 'a list list" where
  "batches operations batch_size =
     (case py_range 0 (int (length operations)) batch_size of
        Inl err \<Rightarrow> []
      | Inr indices \<Rightarrow> map (\<lambda>i. py_slice operations i (i + batch_size)) indices)"


text \<open>
  Accounting over the log of calls: what each answer of the backend reports as inserted
  (only a returned result does), what the loop counts as failed for it (only a
  \<open>BulkWriteError\<close> does), the \<open>nInserted\<close> of a \<open>BulkWriteError\<close>, and whether the
  answer is an exception the loop does not catch.
\<close>

fun inserted_of :: "'a list \<times> 'e bulk_write_outcome \<Rightarrow> int" where
  "inserted_of (batch, BulkWriteResult n) = n"
| "inserted_of (batch, BulkWriteError details) = 0"
| "inserted_of (batch, OtherException e) = 0"

fun failed_of :: "'a list \<times> 'e bulk_write_outcome \<Rightarrow> int" where
  "failed_of (batch, BulkWriteResult n) = 0"
| "failed_of (batch, BulkWriteError details) = int (length batch) - nInserted details"
| "failed_of (batch, OtherException e) = 0"

fun partially_inserted :: "'a list \<times> 'e bulk_write_outcome \<Rightarrow> int" where
  "partially_inserted (batch, BulkWriteResult n) = 0"
| "partially_inserted (batch, BulkWriteError details) = nInserted details"
| "partially_inserted (batch, OtherException e) = 0"

fun is_fatal :: "'e bulk_write_outcome \<Rightarrow> bool" where
  "is_fatal (OtherException e) = True"
| "is_fatal (BulkWriteResult n) = False"
| "is_fatal (BulkWriteError details) = False"

text \<open>
  A backend answer accounts for a whole batch when a returned result reports every
  record of the batch as inserted, and a \<open>BulkWriteError\<close> reports between none and all
  of them as inserted (the others being its write errors).
\<close>

fun full_accounting :: "'a list \<times> 'e bulk_write_outcome \<Rightarrow> bool" where
  "full_accounting (batch, BulkWriteResult n) = (n = int (length batch))"
| "full_accounting (batch, BulkWriteError details) =
     (0 \<le> nInserted details \<and> nInserted details \<le> int (length batch))"
| "full_accounting (batch, OtherException e) = False"

text \<open>
  A backend answer is plausible when the counts it reports lie between zero and the
  size of the batch.
\<close>

fun plausible :: "'a list \<times> 'e bulk_write_outcome \<Rightarrow> bool" where
  "plausible (batch, BulkWriteResult n) = (0 \<le> n \<and> n \<le> int (length batch))"
| "plausible (batch, BulkWriteError details) =
     (0 \<le> nInserted details \<and> nInserted details \<le> int (length batch))"
| "plausible (batch, OtherException e) = True"

definition final_state :: "'x \<times> 'st + 'st \<Rightarrow> 'st" where
  "final_state r = (case r of Inl (err, st) \<Rightarrow> st | Inr st \<Rightarrow> st)"

section \<open>mongodb-script.py and postgres-script.py: \<open>connect\<close>\<close>





section \<open>comparisons.py: \<open>DatabaseBenchmark.execute_query_with_stats\<close>\<close>

text \<open>
  Durations are Python floats; they are modelled as real numbers, so every statement
  below is about exact arithmetic.
\<close>

record QueryResult =
  execution_times :: "real list"
  mean :: real
  median :: real
  std_dev :: real
  min_time :: real
  max_time :: real

text \<open>
  The timing loop (lines 61 to 71). \<open>query_func\<close> is external: a step over the world
  that returns or raises; \<open>time.time()\<close> reads the wall clock of the world, and
  \<open>time.sleep(1)\<close> is a step over the world. The state counts the calls made to
  \<open>query_func\<close>.
\<close>

record 's timing_state =
  tworld :: 's
  times :: "real list"
  invocations :: nat

definition timed_iteration ::
  "('s \<Rightarrow> real) \<Rightarrow> ('s \<Rightarrow> ('e + unit) \<times> 's) \<Rightarrow> (real \<Rightarrow> 's \<Rightarrow> 's) \<Rightarrow>
   's timing_state \<Rightarrow> 'e exn \<times> 's timing_state + 's timing_state" where
  "timed_iteration clock query_func sleep st =
     (let start_time = clock (tworld st);
          (r, s1) = query_func (tworld st);
          st1 = st\<lparr>tworld := s1, invocations := Suc (invocations st)\<rparr>
      in case r of
           Inl e \<Rightarrow> Inl (Raised e, st1)
         | Inr u \<Rightarrow>
             (let execution_time = clock s1 - start_time
              in Inr (st1\<lparr>tworld := sleep 1 s1, times := times st @ [execution_time]\<rparr>)))"

fun timing_loop ::
  "('s \<Rightarrow> real) \<Rightarrow> ('s \<Rightarrow> ('e + unit) \<times> 's) \<Rightarrow> (real \<Rightarrow> 's \<Rightarrow> 's) \<Rightarrow> int list \<Rightarrow>
   's timing_state \<Rightarrow> 'e exn \<times> 's timing_state + 's timing_state" where
  "timing_loop clock query_func sleep [] st = Inr st"
| "timing_loop clock query_func sleep (i # is) st =
     (case timed_iteration clock query_func sleep st of
        Inl err \<Rightarrow> Inl err
      | Inr st' \<Rightarrow> timing_loop clock query_func sleep is st')"

definition collect_execution_times ::
  "('s \<Rightarrow> real) \<Rightarrow> ('s \<Rightarrow> ('e + unit) \<times> 's) \<Rightarrow> (real \<Rightarrow> 's \<Rightarrow> 's) \<Rightarrow> int \<Rightarrow> 's \<Rightarrow>
   'e exn \<times> 's timing_state + 's timing_state" where
  "collect_execution_times clock query_func sleep iterations s =
     (case py_range 0 iterations 1 of
        Inl err \<Rightarrow> Inl (PyError err, \<lparr>tworld = s, times = [], invocations = 0\<rparr>)
      | Inr indices \<Rightarrow>
          timing_loop clock query_func sleep indices \<lparr>tworld = s, times = [], invocations = 0\<rparr>)"

text \<open>
  The functions of Python's \<open>statistics\<close> module and the built-ins \<open>min\<close> and \<open>max\<close>,
  as documented: \<open>mean\<close> and \<open>median\<close> raise \<open>StatisticsError\<close> on no data, \<open>median\<close>
  sorts and takes the middle value or the mean of the two middle values, \<open>stdev\<close> is
  the square root of \<open>variance\<close>, which raises \<open>StatisticsError\<close> on fewer than two
  values and divides the squared deviations from the mean by \<open>n - 1\<close>; \<open>min\<close> and
  \<open>max\<close> raise \<open>ValueError\<close> on an empty list and otherwise keep the first smallest
  (largest) value met.
\<close>

definition statistics_mean :: "real list \<Rightarrow> py_error + real" where
  "statistics_mean data =
     (if length data < 1 then Inl StatisticsError
      else Inr (sum_list data / real (length data)))"

definition statistics_median :: "real list \<Rightarrow> py_error + real" where
  "statistics_median xs =
     (let data = sort xs; n = length data
      in if n = 0 then Inl StatisticsError
         else if n mod 2 = 1 then Inr (data ! (n div 2))
         else (let i = n div 2 in Inr ((data ! (i - 1) + data ! i) / 2)))"

definition statistics_variance :: "real list \<Rightarrow> py_error + real" where
  "statistics_variance data =
     (let n = length data
      in if n < 2 then Inl StatisticsError
         else (let c = sum_list data / real n;
                   ss = sum_list (map (\<lambda>x. (x - c)\<^sup>2) data)
               in Inr (ss / (real n - 1))))"

definition statistics_stdev :: "real list \<Rightarrow> py_error + real" where
  "statistics_stdev data =
     (case statistics_variance data of Inl err \<Rightarrow> Inl err | Inr var \<Rightarrow> Inr (sqrt var))"

definition py_min :: "real list \<Rightarrow> py_error + real" where
  "py_min xs = (case xs of [] \<Rightarrow> Inl ValueError
                | x # rest \<Rightarrow> Inr (foldl (\<lambda>m y. if y < m then y else m) x rest))"

definition py_max :: "real list \<Rightarrow> py_error + real" where
  "py_max xs = (case xs of [] \<Rightarrow> Inl ValueError
                | x # rest \<Rightarrow> Inr (foldl (\<lambda>m y. if m < y then y else m) x rest))"

text \<open>
  The construction of the \<open>QueryResult\<close> (lines 73 to 80): the keyword arguments are
  evaluated in the order written, so the first exception is that of
  \<open>statistics.mean\<close>; \<open>statistics.stdev\<close> is called only on more than one sample.
\<close>

definition summarize :: "real list \<Rightarrow> py_error + QueryResult" where
  "summarize ts =
     (case statistics_mean ts of Inl err \<Rightarrow> Inl err | Inr m \<Rightarrow>
     (case statistics_median ts of Inl err \<Rightarrow> Inl err | Inr md \<Rightarrow>
     (case (if 1 < length ts then statistics_stdev ts else Inr 0) of Inl err \<Rightarrow> Inl err | Inr sd \<Rightarrow>
     (case py_min ts of Inl err \<Rightarrow> Inl err | Inr lo \<Rightarrow>
     (case py_max ts of Inl err \<Rightarrow> Inl err | Inr hi \<Rightarrow>
        Inr \<lparr>execution_times = ts, mean = m, median = md, std_dev = sd,
             min_time = lo, max_time = hi\<rparr>)))))"

definition execute_query_with_stats ::
  "('s \<Rightarrow> real) \<Rightarrow> ('s \<Rightarrow> ('e + unit) \<times> 's) \<Rightarrow> (real \<Rightarrow> 's \<Rightarrow> 's) \<Rightarrow> int \<Rightarrow> 's \<Rightarrow>
   'e exn + QueryResult" where
  "execute_query_with_stats clock query_func sleep iterations s =
     (case collect_execution_times clock query_func sleep iterations s of
        Inl (err, st) \<Rightarrow> Inl err
      | Inr st \<Rightarrow>
          (case summarize (times st) of Inl err \<Rightarrow> Inl (PyError err) | Inr q \<Rightarrow> Inr q))"

text \<open>
  The world before iteration \<open>j\<close> of a run in which no earlier call raised: each
  iteration runs the query and then sleeps one second.
\<close>

definition world_before ::
  "('s \<Rightarrow> ('e + unit) \<times> 's) \<Rightarrow> (real \<Rightarrow> 's \<Rightarrow> 's) \<Rightarrow> nat \<Rightarrow> 's \<Rightarrow> 's" where
  "world_before query_func sleep j s = ((\<lambda>w. sleep 1 (snd (query_func w))) ^^ j) s"

text \<open>
  The reference statistics, following the words of the specification: arithmetic mean,
  median, minimum, maximum, and the sample standard deviation, which is 0 for a single
  sample.
\<close>

definition reference_mean :: "real list \<Rightarrow> real" where
  "reference_mean xs = (\<Sum>x\<leftarrow>xs. x) / real (length xs)"

definition reference_median :: "real list \<Rightarrow> real" where
  "reference_median xs =
     (let sorted_xs = sort xs; n = length xs
      in if odd n then sorted_xs ! (n div 2)
         else (sorted_xs ! (n div 2 - 1) + sorted_xs ! (n div 2)) / 2)"

definition reference_stddev :: "real list \<Rightarrow> real" where
  "reference_stddev xs =
     (if length xs = 1 then 0
      else sqrt ((\<Sum>x\<leftarrow>xs. (x - reference_mean xs)\<^sup>2) / (real (length xs) - 1)))"

definition reference_summary :: "real list \<Rightarrow> QueryResult" where
  "reference_summary xs =
     \<lparr>execution_times = xs, mean = reference_mean xs, median = reference_median xs,
      std_dev = reference_stddev xs, min_time = Min (set xs), max_time = Max (set xs)\<rparr>"

section \<open>comparisons.py: \<open>DatabaseBenchmark._generate_findings\<close>\<close>

text \<open>
  \<open>k.lower()\<close> on ASCII letters, and the substring test \<open>sub in s\<close>.
\<close>

definition lower_char :: "char \<Rightarrow> char" where
  "lower_char c =
     (if (65::nat) \<le> of_char c \<and> of_char c \<le> (90::nat) then char_of (of_char c + (32::nat)) else c)"

definition py_lower :: "string \<Rightarrow> string" where
  "py_lower s = map lower_char s"

fun py_in :: "string \<Rightarrow> string \<Rightarrow> bool" where
  "py_in sub [] = (sub = [])"
| "py_in sub (c # s) = (take (length sub) (c # s) = sub \<or> py_in sub s)"

text \<open>
  A finding is a sentence built from five values: the category, the database named as
  faster, the magnitude \<open>abs(diff_percent)\<close> (printed with one decimal), and the names
  of the two tests. The model keeps the values.
\<close>

datatype database = MongoDB | PostgreSQL

record finding =
  in_category :: string
  faster_db :: database
  percent_faster :: real
  mongo_name :: string
  pg_name :: string

text \<open>
  A dictionary is the list of its items in iteration order.
\<close>

definition mongo_tests :: "(string \<times> QueryResult) list \<Rightarrow> (string \<times> QueryResult) list" where
  "mongo_tests tests = filter (\<lambda>(k, v). py_in ''mongo'' (py_lower k)) tests"

definition pg_tests :: "(string \<times> QueryResult) list \<Rightarrow> (string \<times> QueryResult) list" where
  "pg_tests tests = filter (\<lambda>(k, v). py_in ''postgres'' (py_lower k)) tests"

definition diff_percent :: "QueryResult \<Rightarrow> QueryResult \<Rightarrow> real" where
  "diff_percent mongo_metrics pg_metrics =
     (mean mongo_metrics - mean pg_metrics) / mean pg_metrics * 100"

text \<open>
  The body of the inner loop (lines 430 to 438): dividing by a zero mean raises
  \<open>ZeroDivisionError\<close>.
\<close>

definition compare_pair ::
  "string \<Rightarrow> string \<times> QueryResult \<Rightarrow> string \<times> QueryResult \<Rightarrow> finding list \<Rightarrow>
   py_error + finding list" where
  "compare_pair category m p findings =
     (if mean (snd p) = 0 then Inl ZeroDivisionError
      else if \<bar>diff_percent (snd m) (snd p)\<bar> > 10
        then Inr (findings @
               [\<lparr>in_category = category,
                 faster_db = (if diff_percent (snd m) (snd p) < 0 then MongoDB else PostgreSQL),
                 percent_faster = \<bar>diff_percent (snd m) (snd p)\<bar>,
                 mongo_name = fst m, pg_name = fst p\<rparr>])
        else Inr findings)"

fun pg_loop ::
  "string \<Rightarrow> string \<times> QueryResult \<Rightarrow> (string \<times> QueryResult) list \<Rightarrow> finding list \<Rightarrow>
   py_error + finding list" where
  "pg_loop category m [] findings = Inr findings"
| "pg_loop category m (p # ps) findings =
     (case compare_pair category m p findings of
        Inl err \<Rightarrow> Inl err
      | Inr findings' \<Rightarrow> pg_loop category m ps findings')"

fun mongo_loop ::
  "string \<Rightarrow> (string \<times> QueryResult) list \<Rightarrow> (string \<times> QueryResult) list \<Rightarrow> finding list \<Rightarrow>
   py_error + finding list" where
  "mongo_loop category [] ps findings = Inr findings"
| "mongo_loop category (m # ms) ps findings =
     (case pg_loop category m ps findings of
        Inl err \<Rightarrow> Inl err
      | Inr findings' \<Rightarrow> mongo_loop category ms ps findings')"

fun category_loop ::
  "(string \<times> (string \<times> QueryResult) list) list \<Rightarrow> finding list \<Rightarrow> py_error + finding list" where
  "category_loop [] findings = Inr findings"
| "category_loop ((category, tests) # rest) findings =
     (case mongo_loop category (mongo_tests tests) (pg_tests tests) findings of
        Inl err \<Rightarrow> Inl err
      | Inr findings' \<Rightarrow> category_loop rest findings')"

definition generate_findings ::
  "(string \<times> (string \<times> QueryResult) list) list \<Rightarrow> py_error + finding list" where
  "generate_findings results = category_loop results []"

text \<open>
  The finding the code writes for one pair of tests of a category.
\<close>

definition finding_of :: "string \<Rightarrow> string \<times> QueryResult \<Rightarrow> string \<times> QueryResult \<Rightarrow> finding" where
  "finding_of category m p =
     \<lparr>in_category = category,
      faster_db = (if diff_percent (snd m) (snd p) < 0 then MongoDB else PostgreSQL),
      percent_faster = \<bar>diff_percent (snd m) (snd p)\<bar>,
      mongo_name = fst m, pg_name = fst p\<rparr>"

section \<open>Example backends and inputs\<close>


definition one_rejected_backend :: "(unit, int, string) collection" where
  "one_rejected_backend s batch = (BulkWriteError (Some (int (length batch) - 1)), s)"

definition second_batch_partial :: "(nat, int, string) collection" where
  "second_batch_partial s batch =
     (if s = 1 then BulkWriteError (Some 1) else BulkWriteResult (int (length batch)), Suc s)"

definition second_batch_fatal :: "(nat, int, string) collection" where
  "second_batch_fatal s batch =
     (if s = 1 then OtherException ''connection lost'' else BulkWriteResult (int (length batch)), Suc s)"

definition five_documents :: "int option list" where
  "five_documents = [Some 11, None, Some 12, Some 13, Some 14, Some 15]"




section \<open>Batching\<close>

lemma py_slice_nonneg:
  "0 \<le> i \<Longrightarrow> 0 \<le> b \<Longrightarrow> py_slice xs i (i + b) = take (nat b) (drop (nat i) xs)"
  by (auto simp: py_slice_def clamp_index_def Let_def min_def)

lemma py_range_pos:
  "0 < step \<Longrightarrow>
   py_range 0 n step = Inr (map (\<lambda>k. int k * step) [0 ..< nat ((n + step - 1) div step)])"
  by (simp add: py_range_def)

lemma batches_pos:
  assumes "0 < bs"
  shows "batches ops bs =
    map (\<lambda>k. take (nat bs) (drop (k * nat bs) ops))
      [0 ..< nat ((int (length ops) + bs - 1) div bs)]"
proof -
  have "py_slice ops (int k * bs) (int k * bs + bs) = take (nat bs) (drop (k * nat bs) ops)" for k
    using assms by (simp add: py_slice_nonneg nat_mult_distrib)
  then show ?thesis using assms by (simp add: batches_def py_range_pos)
qed

lemma ceil_div_nat:
  assumes "0 < bs"
  shows "nat ((int n + bs - 1) div bs) = (n + nat bs - 1) div nat bs"
proof -
  obtain b where b: "bs = int b" "0 < b"
    using assms by (metis nat_eq_iff2 zero_less_nat_eq order_less_imp_le)
  have "int n + int b - 1 = int (n + b - 1)" using b by auto
  then show ?thesis using b by (simp add: zdiv_int[symmetric] del: of_nat_add of_nat_diff)
qed


lemma concat_chunks_take:
  "concat (map (\<lambda>k. take b (drop (k * b) xs)) [0 ..< m]) = take (m * b) xs"
proof (induction m)
  case 0
  then show ?case by simp
next
  case (Suc m)
  have "take (m * b + b) xs = take (m * b) xs @ take b (drop (m * b) xs)"
    by (rule take_add)
  with Suc show ?case by (simp add: add.commute)
qed

lemma ceil_covers: "0 < (b::nat) \<Longrightarrow> n \<le> ((n + b - 1) div b) * b"
proof -
  assume b: "0 < b"
  have "(n + b - 1) = ((n + b - 1) div b) * b + (n + b - 1) mod b" by simp
  moreover have "(n + b - 1) mod b < b" using b by simp
  ultimately show ?thesis by linarith
qed


section \<open>The insertion loop and its log\<close>

lemma insert_batch_Inr:
  assumes "insert_batch bw ops bs i st = Inr st'"
  shows "\<exists>oc. bw (backend st) (py_slice ops i (i + bs)) = (oc, backend st') \<and> \<not> is_fatal oc
    \<and> calls st' = calls st @ [(py_slice ops i (i + bs), oc)]
    \<and> total_inserted st' = total_inserted st + inserted_of (py_slice ops i (i + bs), oc)
    \<and> failed_inserts st' = failed_inserts st + failed_of (py_slice ops i (i + bs), oc)"
  using assms
  by (cases "bw (backend st) (py_slice ops i (i + bs))")
     (auto simp: insert_batch_def Let_def split: bulk_write_outcome.splits)

lemma insert_batch_Inl:
  assumes "insert_batch bw ops bs i st = Inl (err, st')"
  shows "\<exists>e. bw (backend st) (py_slice ops i (i + bs)) = (OtherException e, backend st')
    \<and> err = Raised e
    \<and> calls st' = calls st @ [(py_slice ops i (i + bs), OtherException e)]
    \<and> total_inserted st' = total_inserted st
    \<and> failed_inserts st' = failed_inserts st"
  using assms
  by (cases "bw (backend st) (py_slice ops i (i + bs))")
     (auto simp: insert_batch_def Let_def split: bulk_write_outcome.splits)

lemma insert_loop_Inr:
  assumes "insert_loop bw ops bs is st = Inr st'"
  shows "\<exists>log. calls st' = calls st @ log
    \<and> map fst log = map (\<lambda>i. py_slice ops i (i + bs)) is
    \<and> list_all (\<lambda>c. \<not> is_fatal (snd c)) log
    \<and> total_inserted st' = total_inserted st + sum_list (map inserted_of log)
    \<and> failed_inserts st' = failed_inserts st + sum_list (map failed_of log)"
  using assms
proof (induction "is" arbitrary: st)
  case Nil
  then show ?case by simp
next
  case (Cons i "is")
  from Cons.prems obtain st1 where b: "insert_batch bw ops bs i st = Inr st1"
    and l: "insert_loop bw ops bs is st1 = Inr st'"
    by (auto split: sum.splits)
  from insert_batch_Inr[OF b] obtain oc where oc: "\<not> is_fatal oc"
    "calls st1 = calls st @ [(py_slice ops i (i + bs), oc)]"
    "total_inserted st1 = total_inserted st + inserted_of (py_slice ops i (i + bs), oc)"
    "failed_inserts st1 = failed_inserts st + failed_of (py_slice ops i (i + bs), oc)"
    by blast
  from Cons.IH[OF l] obtain log where log: "calls st' = calls st1 @ log"
    "map fst log = map (\<lambda>i. py_slice ops i (i + bs)) is"
    "list_all (\<lambda>c. \<not> is_fatal (snd c)) log"
    "total_inserted st' = total_inserted st1 + sum_list (map inserted_of log)"
    "failed_inserts st' = failed_inserts st1 + sum_list (map failed_of log)"
    by blast
  show ?case
    by (rule exI[of _ "(py_slice ops i (i + bs), oc) # log"]) (simp add: oc log)
qed

lemma insert_loop_Inl:
  assumes "insert_loop bw ops bs is st = Inl (err, st')"
  shows "\<exists>log b e. err = Raised e \<and> calls st' = calls st @ log @ [(b, OtherException e)]
    \<and> length log < length is
    \<and> map fst (log @ [(b, OtherException e)]) =
        take (Suc (length log)) (map (\<lambda>i. py_slice ops i (i + bs)) is)
    \<and> list_all (\<lambda>c. \<not> is_fatal (snd c)) log
    \<and> total_inserted st' = total_inserted st + sum_list (map inserted_of log)
    \<and> failed_inserts st' = failed_inserts st + sum_list (map failed_of log)"
  using assms
proof (induction "is" arbitrary: st)
  case Nil
  then show ?case by simp
next
  case (Cons i "is")
  show ?case
  proof (cases "insert_batch bw ops bs i st")
    case (Inl p)
    with Cons.prems have p: "p = (err, st')" by simp
    from insert_batch_Inl[OF Inl[unfolded p]] obtain e where e: "err = Raised e"
      "calls st' = calls st @ [(py_slice ops i (i + bs), OtherException e)]"
      "total_inserted st' = total_inserted st" "failed_inserts st' = failed_inserts st"
      by blast
    show ?thesis
      by (rule exI[of _ "[]"], rule exI[of _ "py_slice ops i (i + bs)"], rule exI[of _ e])
         (simp add: e)
  next
    case (Inr st1)
    with Cons.prems have l: "insert_loop bw ops bs is st1 = Inl (err, st')" by simp
    from insert_batch_Inr[OF Inr] obtain oc where oc: "\<not> is_fatal oc"
      "calls st1 = calls st @ [(py_slice ops i (i + bs), oc)]"
      "total_inserted st1 = total_inserted st + inserted_of (py_slice ops i (i + bs), oc)"
      "failed_inserts st1 = failed_inserts st + failed_of (py_slice ops i (i + bs), oc)"
      by blast
    from Cons.IH[OF l] obtain log b e where log: "err = Raised e"
      "calls st' = calls st1 @ log @ [(b, OtherException e)]"
      "length log < length is"
      "map fst (log @ [(b, OtherException e)]) =
         take (Suc (length log)) (map (\<lambda>i. py_slice ops i (i + bs)) is)"
      "list_all (\<lambda>c. \<not> is_fatal (snd c)) log"
      "total_inserted st' = total_inserted st1 + sum_list (map inserted_of log)"
      "failed_inserts st' = failed_inserts st1 + sum_list (map failed_of log)"
      by blast
    show ?thesis
      by (rule exI[of _ "(py_slice ops i (i + bs), oc) # log"], rule exI[of _ b], rule exI[of _ e])
         (use oc log in simp)
  qed
qed

lemma run_Inr:
  assumes "0 < bs" and "bulk_insert_run bw s docs bs = Inr st"
  shows "map fst (calls st) = batches (map InsertOne (valid_documents docs)) bs"
    and "list_all (\<lambda>c. \<not> is_fatal (snd c)) (calls st)"
    and "total_inserted st = sum_list (map inserted_of (calls st))"
    and "failed_inserts st = sum_list (map failed_of (calls st))"
proof -
  let ?ops = "map InsertOne (valid_documents docs)"
  obtain indices where r: "py_range 0 (int (length ?ops)) bs = Inr indices"
    using assms(1) by (simp add: py_range_pos)
  with assms have l: "insert_loop bw ?ops bs indices (initial_load_state s) = Inr st"
    by (simp add: bulk_insert_run_def Let_def)
  from insert_loop_Inr[OF l] obtain log where log:
    "calls st = log" "map fst log = map (\<lambda>i. py_slice ?ops i (i + bs)) indices"
    "list_all (\<lambda>c. \<not> is_fatal (snd c)) log"
    "total_inserted st = sum_list (map inserted_of log)"
    "failed_inserts st = sum_list (map failed_of log)"
    by (auto simp: initial_load_state_def)
  show "map fst (calls st) = batches ?ops bs" using log r by (simp add: batches_def)
  show "list_all (\<lambda>c. \<not> is_fatal (snd c)) (calls st)" using log by simp
  show "total_inserted st = sum_list (map inserted_of (calls st))" using log by simp
  show "failed_inserts st = sum_list (map failed_of (calls st))" using log by simp
qed

lemma run_Inl:
  assumes "0 < bs" and "bulk_insert_run bw s docs bs = Inl (err, st)"
  shows "\<exists>log b e. err = Raised e \<and> calls st = log @ [(b, OtherException e)]
    \<and> length log < length (batches (map InsertOne (valid_documents docs)) bs)
    \<and> map fst (calls st) = take (Suc (length log)) (batches (map InsertOne (valid_documents docs)) bs)
    \<and> list_all (\<lambda>c. \<not> is_fatal (snd c)) log
    \<and> total_inserted st = sum_list (map inserted_of log)
    \<and> failed_inserts st = sum_list (map failed_of log)"
proof -
  let ?ops = "map InsertOne (valid_documents docs)"
  obtain indices where r: "py_range 0 (int (length ?ops)) bs = Inr indices"
    using assms(1) by (simp add: py_range_pos)
  with assms have l: "insert_loop bw ?ops bs indices (initial_load_state s) = Inl (err, st)"
    by (simp add: bulk_insert_run_def Let_def)
  have b: "batches ?ops bs = map (\<lambda>i. py_slice ?ops i (i + bs)) indices"
    using r by (simp add: batches_def)
  from insert_loop_Inl[OF l] obtain lg c e where lg: "err = Raised e"
    "calls st = lg @ [(c, OtherException e)]" "length lg < length indices"
    "map fst (lg @ [(c, OtherException e)]) =
       take (Suc (length lg)) (map (\<lambda>i. py_slice ?ops i (i + bs)) indices)"
    "list_all (\<lambda>c. \<not> is_fatal (snd c)) lg"
    "total_inserted st = sum_list (map inserted_of lg)"
    "failed_inserts st = sum_list (map failed_of lg)"
    by (auto simp: initial_load_state_def)
  show ?thesis
    by (rule exI[of _ lg], rule exI[of _ c], rule exI[of _ e]) (use lg b in simp)
qed

lemma sum_failed_fatal_last:
  "sum_list (map failed_of (lg @ [(b, OtherException e)])) = sum_list (map failed_of lg)"
  "sum_list (map inserted_of (lg @ [(b, OtherException e)])) = sum_list (map inserted_of lg)"
  by simp_all

lemma batches_concat:
  assumes "0 < bs" shows "concat (batches ops bs) = ops"
proof -
  have "length ops \<le> ((length ops + nat bs - 1) div nat bs) * nat bs"
    using assms by (intro ceil_covers) simp
  then show ?thesis
    using assms by (simp add: batches_pos ceil_div_nat concat_chunks_take)
qed



lemma batches_sum:
  assumes "0 < bs" shows "sum_list (map length (batches ops bs)) = length ops"
proof -
  have "sum_list (map length (batches ops bs)) = length (concat (batches ops bs))"
    by (simp add: length_concat)
  then show ?thesis using assms by (simp add: batches_concat)
qed

section \<open>Runs on the example inputs\<close>

lemmas run_simps = bulk_insert_run_def valid_documents_def py_range_def insert_batch_def
  py_slice_def clamp_index_def Let_def upt_conv_Cons initial_load_state_def five_documents_def

lemma five_documents_batches:
  "batches (map InsertOne (valid_documents five_documents)) 2
   = [[InsertOne 11, InsertOne 12], [InsertOne 13, InsertOne 14], [InsertOne 15]]"
  by (simp add: batches_def py_range_def py_slice_def clamp_index_def Let_def upt_conv_Cons
      valid_documents_def five_documents_def)


lemma run_partial:
  "bulk_insert_run second_batch_partial 0 five_documents 2
   = Inr \<lparr>backend = 3,
          calls = [([InsertOne 11, InsertOne 12], BulkWriteResult 2),
                   ([InsertOne 13, InsertOne 14], BulkWriteError (Some 1)),
                   ([InsertOne 15], BulkWriteResult 1)],
          total_inserted = 3, failed_inserts = 1\<rparr>"
  by (simp add: run_simps second_batch_partial_def nInserted_def)

lemma run_fatal:
  "bulk_insert_run second_batch_fatal 0 five_documents 2
   = Inl (Raised ''connection lost'',
         \<lparr>backend = 2,
          calls = [([InsertOne 11, InsertOne 12], BulkWriteResult 2),
                   ([InsertOne 13, InsertOne 14], OtherException ''connection lost'')],
          total_inserted = 2, failed_inserts = 0\<rparr>)"
  by (simp add: run_simps second_batch_fatal_def)

section \<open>Claims about the bulk load\<close>


lemma five_valid: "valid_documents five_documents = [11, 12, 13, 14, 15]"
  by (simp add: valid_documents_def five_documents_def)


text \<open>
  C1, at a concrete input. Two valid documents are submitted in one batch; the backend
  inserts one and rejects the other, and says so (\<open>nInserted = 1\<close> for a batch of two, so
  its report accounts for the whole batch). The method returns \<open>(0, 1)\<close>: the record
  that was inserted is counted neither as inserted nor as failed, and
  \<open>inserted + failed = 1\<close> is less than the two records submitted.
\<close>

theorem bulk_insert_drops_partially_inserted:
  "bulk_insert_documents one_rejected_backend () [Some 11, Some 12] 1000 = Inr (0, 1)
   \<and> calls (final_state (bulk_insert_run one_rejected_backend () [Some 11, Some 12] 1000))
       = [([InsertOne 11, InsertOne 12], BulkWriteError (Some 1))]
   \<and> list_all full_accounting
       (calls (final_state (bulk_insert_run one_rejected_backend () [Some 11, Some 12] 1000)))"
  by (simp add: bulk_insert_documents_def run_simps one_rejected_backend_def nInserted_def final_state_def)

section \<open>Totals, fatal failures and accounting over the log\<close>

lemma run_totals:
  assumes "0 < bs"
  shows "total_inserted (final_state (bulk_insert_run bw s docs bs))
           = sum_list (map inserted_of (calls (final_state (bulk_insert_run bw s docs bs))))"
    and "failed_inserts (final_state (bulk_insert_run bw s docs bs))
           = sum_list (map failed_of (calls (final_state (bulk_insert_run bw s docs bs))))"
proof -
  let ?r = "bulk_insert_run bw s docs bs"
  have "total_inserted (final_state ?r) = sum_list (map inserted_of (calls (final_state ?r)))
      \<and> failed_inserts (final_state ?r) = sum_list (map failed_of (calls (final_state ?r)))"
  proof (cases ?r)
    case (Inr st)
    then show ?thesis using run_Inr(3,4)[OF assms Inr] by (simp add: final_state_def)
  next
    case (Inl p)
    obtain err st where p: "p = (err, st)" by (cases p)
    from run_Inl[OF assms Inl[unfolded p]] obtain lg c e where
      "calls st = lg @ [(c, OtherException e)]"
      "total_inserted st = sum_list (map inserted_of lg)"
      "failed_inserts st = sum_list (map failed_of lg)"
      by blast
    then show ?thesis using Inl p by (simp add: final_state_def)
  qed
  then show "total_inserted (final_state ?r) = sum_list (map inserted_of (calls (final_state ?r)))"
    and "failed_inserts (final_state ?r) = sum_list (map failed_of (calls (final_state ?r)))"
    by simp_all
qed

lemma run_Inl_fatal:
  assumes "0 < bs" and "bulk_insert_run bw s docs bs = Inl (err, st)"
  shows "\<exists>c \<in> set (calls st). is_fatal (snd c)"
proof -
  from run_Inl[OF assms] obtain lg c e where "calls st = lg @ [(c, OtherException e)]" by blast
  then have "(c, OtherException e) \<in> set (calls st)" by simp
  moreover have "is_fatal (snd (c, OtherException e))" by simp
  ultimately show ?thesis by (rule bexI[rotated])
qed

lemma run_no_fatal_returns:
  assumes "0 < bs" and "\<forall>c \<in> set (calls (final_state (bulk_insert_run bw s docs bs))). \<not> is_fatal (snd c)"
  shows "\<exists>st. bulk_insert_run bw s docs bs = Inr st"
proof (cases "bulk_insert_run bw s docs bs")
  case (Inr st)
  then show ?thesis by simp
next
  case (Inl p)
  obtain err st where p: "p = (err, st)" by (cases p)
  have st: "final_state (bulk_insert_run bw s docs bs) = st" using Inl p by (simp add: final_state_def)
  from run_Inl_fatal[OF assms(1) Inl[unfolded p]] assms(2) st show ?thesis by simp
qed

lemma run_fatal_last:
  assumes "0 < bs"
    and "(b, OtherException e) \<in> set (calls (final_state (bulk_insert_run bw s docs bs)))"
  shows "bulk_insert_run bw s docs bs = Inl (Raised e, final_state (bulk_insert_run bw s docs bs))"
    and "last (calls (final_state (bulk_insert_run bw s docs bs))) = (b, OtherException e)"
    and "list_all (\<lambda>c. \<not> is_fatal (snd c)) (butlast (calls (final_state (bulk_insert_run bw s docs bs))))"
proof -
  let ?r = "bulk_insert_run bw s docs bs"
  have "\<not> (\<forall>c \<in> set (calls (final_state ?r)). \<not> is_fatal (snd c))"
  proof
    assume "\<forall>c \<in> set (calls (final_state ?r)). \<not> is_fatal (snd c)"
    with assms(2) have "\<not> is_fatal (snd (b, OtherException e))" by (rule bspec[rotated])
    then show False by simp
  qed
  have "\<exists>p. ?r = Inl p"
  proof (cases ?r)
    case (Inl p) then show ?thesis by simp
  next
    case (Inr st)
    have "list_all (\<lambda>c. \<not> is_fatal (snd c)) (calls st)" by (rule run_Inr(2)[OF assms(1) Inr])
    moreover have "(b, OtherException e) \<in> set (calls st)"
      using assms(2) Inr by (simp add: final_state_def)
    ultimately have "\<not> is_fatal (snd (b, OtherException e))"
      unfolding list_all_iff by (rule bspec)
    then show ?thesis by simp
  qed
  then obtain p where Inl: "?r = Inl p" ..
  obtain err st where p: "p = (err, st)" by (cases p)
  from run_Inl[OF assms(1) Inl[unfolded p]] obtain lg c e' where lg:
    "err = Raised e'" "calls st = lg @ [(c, OtherException e')]"
    "list_all (\<lambda>c. \<not> is_fatal (snd c)) lg"
    by blast
  have st: "final_state ?r = st" using Inl p by (simp add: final_state_def)
  have mem: "(b, OtherException e) \<in> set lg \<or> (b, OtherException e) = (c, OtherException e')"
    using assms(2) st lg(2) by auto
  have notin: "(b, OtherException e) \<notin> set lg"
  proof
    assume "(b, OtherException e) \<in> set lg"
    with lg(3) have "\<not> is_fatal (snd (b, OtherException e))"
      unfolding list_all_iff by (rule bspec)
    then show False by simp
  qed
  from mem notin have eq: "b = c" "e = e'" by simp_all
  show "?r = Inl (Raised e, final_state ?r)" using Inl p lg(1) eq st by simp
  show "last (calls (final_state ?r)) = (b, OtherException e)" using st lg(2) eq by simp
  show "list_all (\<lambda>c. \<not> is_fatal (snd c)) (butlast (calls (final_state ?r)))"
    using st lg(2,3) by simp
qed

lemma run_prefix:
  assumes "0 < bs"
  shows "map fst (calls (final_state (bulk_insert_run bw s docs bs)))
     = take (length (calls (final_state (bulk_insert_run bw s docs bs))))
         (batches (map InsertOne (valid_documents docs)) bs)"
proof (cases "bulk_insert_run bw s docs bs")
  case (Inr st)
  have m: "map fst (calls st) = batches (map InsertOne (valid_documents docs)) bs"
    by (rule run_Inr(1)[OF assms Inr])
  have "length (calls st) = length (batches (map InsertOne (valid_documents docs)) bs)"
    using arg_cong[OF m, of length] by simp
  then show ?thesis using m Inr by (simp add: final_state_def)
next
  case (Inl p)
  obtain err st where p: "p = (err, st)" by (cases p)
  from run_Inl[OF assms Inl[unfolded p]] obtain lg c e where
    "calls st = lg @ [(c, OtherException e)]"
    "map fst (calls st) = take (Suc (length lg)) (batches (map InsertOne (valid_documents docs)) bs)"
    by blast
  then show ?thesis using Inl p by (simp add: final_state_def)
qed

lemma full_accounting_sum:
  assumes "\<forall>c \<in> set cs. full_accounting c"
  shows "sum_list (map inserted_of cs) + sum_list (map failed_of cs)
           + sum_list (map partially_inserted cs)
         = int (sum_list (map length (map fst cs)))"
  using assms
proof (induction cs)
  case Nil
  then show ?case by simp
next
  case (Cons c cs)
  obtain b oc where c: "c = (b, oc)" by (cases c)
  have "inserted_of c + failed_of c + partially_inserted c = int (length (fst c))"
    using Cons.prems c by (cases oc) simp_all
  moreover have "sum_list (map inserted_of cs) + sum_list (map failed_of cs)
           + sum_list (map partially_inserted cs)
         = int (sum_list (map length (map fst cs)))"
    using Cons by simp
  ultimately show ?case by simp
qed

lemma plausible_sum:
  assumes "\<forall>c \<in> set cs. plausible c"
  shows "sum_list (map inserted_of cs) + sum_list (map failed_of cs)
         \<le> int (sum_list (map length (map fst cs)))"
  using assms
proof (induction cs)
  case Nil
  then show ?case by simp
next
  case (Cons c cs)
  obtain b oc where c: "c = (b, oc)" by (cases c)
  have "inserted_of c + failed_of c \<le> int (length (fst c))"
    using Cons.prems c by (cases oc) simp_all
  moreover have "sum_list (map inserted_of cs) + sum_list (map failed_of cs)
         \<le> int (sum_list (map length (map fst cs)))"
    using Cons by simp
  ultimately show ?case by simp
qed

lemma sum_take_le: "sum_list (map length (take k (xss :: 'a list list))) \<le> sum_list (map length xss)"
proof -
  have "sum_list (map length xss) = sum_list (map length (take k xss)) + sum_list (map length (drop k xss))"
    by (metis append_take_drop_id map_append sum_list.append)
  then show ?thesis by simp
qed

lemma load_outcome_bounded:
  assumes "0 < bs"
    and "\<forall>c \<in> set (calls (final_state (bulk_insert_run bw s docs bs))). plausible c"
  shows "total_inserted (final_state (bulk_insert_run bw s docs bs))
         + failed_inserts (final_state (bulk_insert_run bw s docs bs))
         \<le> int (length (valid_documents docs))"
proof -
  let ?st = "final_state (bulk_insert_run bw s docs bs)"
  let ?ops = "map InsertOne (valid_documents docs)"
  have "total_inserted ?st + failed_inserts ?st
      = sum_list (map inserted_of (calls ?st)) + sum_list (map failed_of (calls ?st))"
    using run_totals[OF assms(1), of bw s docs] by simp
  also have "\<dots> \<le> int (sum_list (map length (map fst (calls ?st))))"
    using assms(2) by (rule plausible_sum)
  also have "map fst (calls ?st) = take (length (calls ?st)) (batches ?ops bs)"
    by (rule run_prefix[OF assms(1)])
  also have "int (sum_list (map length (take (length (calls ?st)) (batches ?ops bs))))
      \<le> int (sum_list (map length (batches ?ops bs)))"
    using sum_take_le[of "length (calls ?st)" "batches ?ops bs"] by simp
  also have "sum_list (map length (batches ?ops bs)) = length ?ops"
    by (rule batches_sum[OF assms(1)])
  finally show ?thesis by simp
qed

lemma final_partial:
  "final_state (bulk_insert_run second_batch_partial 0 five_documents 2)
   = \<lparr>backend = 3,
      calls = [([InsertOne 11, InsertOne 12], BulkWriteResult 2),
               ([InsertOne 13, InsertOne 14], BulkWriteError (Some 1)),
               ([InsertOne 15], BulkWriteResult 1)],
      total_inserted = 3, failed_inserts = 1\<rparr>"
  by (simp add: run_partial final_state_def)

lemma final_fatal:
  "final_state (bulk_insert_run second_batch_fatal 0 five_documents 2)
   = \<lparr>backend = 2,
      calls = [([InsertOne 11, InsertOne 12], BulkWriteResult 2),
               ([InsertOne 13, InsertOne 14], OtherException ''connection lost'')],
      total_inserted = 2, failed_inserts = 0\<rparr>"
  by (simp add: run_fatal final_state_def)

text \<open>
  C2. For a positive \<open>batch_size\<close>: the failed total is the sum, over the calls that
  raised \<open>BulkWriteError\<close>, of the size of the batch minus the \<open>nInserted\<close> the backend
  reported; every batch is submitted once, in order; when no call raises anything but
  \<open>BulkWriteError\<close> the method returns and has submitted every batch; and a call that
  raises another exception is the last call made, its exception is what the method
  raises, and no later batch is submitted.
\<close>

theorem partial_failure_counted_fatal_failure_aborts:
  fixes bulk_write :: "('s, 'd, 'e) collection" and s :: 's and documents :: "'d option list"
    and batch_size :: int
  assumes "0 < batch_size"
  defines "r \<equiv> bulk_insert_run bulk_write s documents batch_size"
  defines "st \<equiv> final_state (bulk_insert_run bulk_write s documents batch_size)"
  shows "failed_inserts st = sum_list (map failed_of (calls st))
    \<and> map fst (calls st)
        = take (length (calls st)) (batches (map InsertOne (valid_documents documents)) batch_size)
    \<and> ((\<forall>c \<in> set (calls st). \<not> is_fatal (snd c)) \<longrightarrow>
          r = Inr st
          \<and> map fst (calls st) = batches (map InsertOne (valid_documents documents)) batch_size)
    \<and> (\<forall>b e. (b, OtherException e) \<in> set (calls st) \<longrightarrow>
          r = Inl (Raised e, st) \<and> last (calls st) = (b, OtherException e)
          \<and> list_all (\<lambda>c. \<not> is_fatal (snd c)) (butlast (calls st)))"
proof -
  have 1: "failed_inserts st = sum_list (map failed_of (calls st))"
    unfolding st_def by (rule run_totals(2)[OF assms(1)])
  have 2: "map fst (calls st)
        = take (length (calls st)) (batches (map InsertOne (valid_documents documents)) batch_size)"
    unfolding st_def by (rule run_prefix[OF assms(1)])
  have 3: "(\<forall>c \<in> set (calls st). \<not> is_fatal (snd c)) \<longrightarrow>
          r = Inr st
          \<and> map fst (calls st) = batches (map InsertOne (valid_documents documents)) batch_size"
  proof
    assume nf: "\<forall>c \<in> set (calls st). \<not> is_fatal (snd c)"
    from run_no_fatal_returns[OF assms(1) nf[unfolded st_def]]
    obtain st' where "bulk_insert_run bulk_write s documents batch_size = Inr st'" ..
    then have r: "r = Inr st'" unfolding r_def .
    then have "st = st'" unfolding st_def r_def by (simp add: final_state_def)
    with r have rr: "r = Inr st" by simp
    from run_Inr(1)[OF assms(1) rr[unfolded r_def]] rr
    show "r = Inr st
          \<and> map fst (calls st) = batches (map InsertOne (valid_documents documents)) batch_size"
      by simp
  qed
  have 4: "\<forall>b e. (b, OtherException e) \<in> set (calls st) \<longrightarrow>
          r = Inl (Raised e, st) \<and> last (calls st) = (b, OtherException e)
          \<and> list_all (\<lambda>c. \<not> is_fatal (snd c)) (butlast (calls st))"
  proof (intro allI impI)
    fix b e assume m: "(b, OtherException e) \<in> set (calls st)"
    from run_fatal_last[OF assms(1) m[unfolded st_def]]
    show "r = Inl (Raised e, st) \<and> last (calls st) = (b, OtherException e)
          \<and> list_all (\<lambda>c. \<not> is_fatal (snd c)) (butlast (calls st))"
      unfolding st_def r_def by simp
  qed
  from 1 2 3 4 show ?thesis by blast
qed

theorem partial_failure_counted_fatal_failure_aborts_witness:
  "(0::int) < 2
   \<and> bulk_insert_run second_batch_partial 0 five_documents 2
       = Inr (final_state (bulk_insert_run second_batch_partial 0 five_documents 2))
   \<and> map fst (calls (final_state (bulk_insert_run second_batch_partial 0 five_documents 2)))
       = [[InsertOne 11, InsertOne 12], [InsertOne 13, InsertOne 14], [InsertOne 15]]
   \<and> failed_inserts (final_state (bulk_insert_run second_batch_partial 0 five_documents 2)) = 1
   \<and> bulk_insert_run second_batch_fatal 0 five_documents 2
       = Inl (Raised ''connection lost'',
              final_state (bulk_insert_run second_batch_fatal 0 five_documents 2))
   \<and> map fst (calls (final_state (bulk_insert_run second_batch_fatal 0 five_documents 2)))
       = [[InsertOne 11, InsertOne 12], [InsertOne 13, InsertOne 14]]"
proof -
  let ?p = "bulk_insert_run second_batch_partial 0 five_documents 2"
  let ?f = "bulk_insert_run second_batch_fatal 0 five_documents 2"
  have pos: "(0::int) < 2" by simp
  note tp = partial_failure_counted_fatal_failure_aborts[OF pos, of second_batch_partial 0 five_documents]
  note tf = partial_failure_counted_fatal_failure_aborts[OF pos, of second_batch_fatal 0 five_documents]
  have nf: "\<forall>c \<in> set (calls (final_state ?p)). \<not> is_fatal (snd c)"
    by (simp add: final_partial)
  from tp have "(\<forall>c \<in> set (calls (final_state ?p)). \<not> is_fatal (snd c)) \<longrightarrow>
      ?p = Inr (final_state ?p)
      \<and> map fst (calls (final_state ?p)) = batches (map InsertOne (valid_documents five_documents)) 2"
    by (elim conjE)
  with nf have p: "?p = Inr (final_state ?p)"
    "map fst (calls (final_state ?p)) = batches (map InsertOne (valid_documents five_documents)) 2"
    by simp_all
  have fl: "failed_inserts (final_state ?p) = 1" by (simp add: final_partial)
  have m: "([InsertOne 13, InsertOne 14], OtherException ''connection lost'')
      \<in> set (calls (final_state ?f))"
    by (simp add: final_fatal)
  from tf have "\<forall>b e. (b, OtherException e) \<in> set (calls (final_state ?f)) \<longrightarrow>
      ?f = Inl (Raised e, final_state ?f) \<and> last (calls (final_state ?f)) = (b, OtherException e)
      \<and> list_all (\<lambda>c. \<not> is_fatal (snd c)) (butlast (calls (final_state ?f)))"
    by (elim conjE)
  with m have f: "?f = Inl (Raised ''connection lost'', final_state ?f)" by blast
  have fc: "map fst (calls (final_state ?f))
       = [[InsertOne 11, InsertOne 12], [InsertOne 13, InsertOne 14]]"
    by (simp add: final_fatal)
  from pos p(1) p(2)[unfolded five_documents_batches] fl f fc show ?thesis by blast
qed

text \<open>
  C10. For a positive \<open>batch_size\<close>: the inserted total is the sum of the
  \<open>inserted_count\<close> of the calls that returned, so the \<open>nInserted\<close> of a call that
  raised \<open>BulkWriteError\<close> is not in it, and it is subtracted from what that batch adds
  to the failed total. When the method returns and every answer accounts for its whole
  batch, inserted plus failed is the number of valid documents minus the records
  reported as inserted by the calls that raised \<open>BulkWriteError\<close>.
\<close>

theorem partially_inserted_counted_nowhere:
  fixes bulk_write :: "('s, 'd, 'e) collection" and s :: 's and documents :: "'d option list"
    and batch_size :: int
  assumes "0 < batch_size"
  defines "r \<equiv> bulk_insert_run bulk_write s documents batch_size"
  defines "st \<equiv> final_state (bulk_insert_run bulk_write s documents batch_size)"
  shows "total_inserted st = sum_list (map inserted_of (calls st))
    \<and> failed_inserts st = sum_list (map failed_of (calls st))
    \<and> (r = Inr st \<and> (\<forall>c \<in> set (calls st). full_accounting c) \<longrightarrow>
          total_inserted st + failed_inserts st
          = int (length (valid_documents documents)) - sum_list (map partially_inserted (calls st)))"
proof -
  have 1: "total_inserted st = sum_list (map inserted_of (calls st))"
    unfolding st_def by (rule run_totals(1)[OF assms(1)])
  have 2: "failed_inserts st = sum_list (map failed_of (calls st))"
    unfolding st_def by (rule run_totals(2)[OF assms(1)])
  have 3: "r = Inr st \<and> (\<forall>c \<in> set (calls st). full_accounting c) \<longrightarrow>
          total_inserted st + failed_inserts st
          = int (length (valid_documents documents)) - sum_list (map partially_inserted (calls st))"
  proof
    assume a: "r = Inr st \<and> (\<forall>c \<in> set (calls st). full_accounting c)"
    then have r: "bulk_insert_run bulk_write s documents batch_size = Inr st"
      and fa: "\<forall>c \<in> set (calls st). full_accounting c"
      unfolding r_def by simp_all
    have m: "map fst (calls st) = batches (map InsertOne (valid_documents documents)) batch_size"
      by (rule run_Inr(1)[OF assms(1) r])
    have "sum_list (map inserted_of (calls st)) + sum_list (map failed_of (calls st))
           + sum_list (map partially_inserted (calls st))
         = int (sum_list (map length (map fst (calls st))))"
      using fa by (rule full_accounting_sum)
    also have "\<dots> = int (length (map InsertOne (valid_documents documents)))"
      unfolding m
      using batches_sum[OF assms(1), of "map InsertOne (valid_documents documents)"] by simp
    finally show "total_inserted st + failed_inserts st
          = int (length (valid_documents documents)) - sum_list (map partially_inserted (calls st))"
      using 1 2 by simp
  qed
  from 1 2 3 show ?thesis by blast
qed

theorem partially_inserted_counted_nowhere_witness:
  "(0::int) < 2
   \<and> total_inserted (final_state (bulk_insert_run second_batch_partial 0 five_documents 2)) = 3
   \<and> failed_inserts (final_state (bulk_insert_run second_batch_partial 0 five_documents 2)) = 1
   \<and> sum_list (map partially_inserted
        (calls (final_state (bulk_insert_run second_batch_partial 0 five_documents 2)))) = 1
   \<and> total_inserted (final_state (bulk_insert_run second_batch_partial 0 five_documents 2))
       + failed_inserts (final_state (bulk_insert_run second_batch_partial 0 five_documents 2))
       = int (length (valid_documents five_documents)) - 1"
proof -
  let ?p = "bulk_insert_run second_batch_partial 0 five_documents 2"
  have pos: "(0::int) < 2" by simp
  note t = partially_inserted_counted_nowhere[OF pos, of second_batch_partial 0 five_documents]
  have r: "?p = Inr (final_state ?p)" by (simp add: run_partial final_state_def)
  have fa: "\<forall>c \<in> set (calls (final_state ?p)). full_accounting c"
    by (simp add: final_partial nInserted_def)
  have pi: "sum_list (map partially_inserted (calls (final_state ?p))) = 1"
    by (simp add: final_partial nInserted_def)
  from t have "?p = Inr (final_state ?p) \<and> (\<forall>c \<in> set (calls (final_state ?p)). full_accounting c)
      \<longrightarrow> total_inserted (final_state ?p) + failed_inserts (final_state ?p)
          = int (length (valid_documents five_documents))
            - sum_list (map partially_inserted (calls (final_state ?p)))"
    by (elim conjE)
  with r fa have "total_inserted (final_state ?p) + failed_inserts (final_state ?p)
          = int (length (valid_documents five_documents))
            - sum_list (map partially_inserted (calls (final_state ?p)))"
    by blast
  then have s: "total_inserted (final_state ?p) + failed_inserts (final_state ?p)
          = int (length (valid_documents five_documents)) - 1"
    unfolding pi .
  have ti: "total_inserted (final_state ?p) = 3" by (simp add: final_partial)
  have fl: "failed_inserts (final_state ?p) = 1" by (simp add: final_partial)
  from pos ti fl pi s show ?thesis by blast
qed

section \<open>Claims about connecting\<close>







end
